theory Spec2Isabelle
  imports Main "HOL-Library.Sublist"
begin

section \<open>JavaScript values used by the components\<close>

text \<open>
  A value of type \<^verbatim>\<open>T | null | undefined\<close>, as the selection callbacks receive it.
\<close>

datatype 'a nullable = Undefined | Null | Defined 'a

text \<open>
  Strings are lists of characters. \<^verbatim>\<open>String.prototype.toLowerCase\<close> belongs to the
  JavaScript runtime, not to the repository: the definitions below take it as a parameter
  \<open>lc\<close>, a function from strings to strings of which nothing is assumed, neither which
  characters it changes nor that it works character by character.

  \<open>asciiLowerCase\<close> is what it computes on strings of ASCII characters (the letters
  \<^verbatim>\<open>A\<close> to \<^verbatim>\<open>Z\<close>, codes 65 to 90, become \<^verbatim>\<open>a\<close> to \<^verbatim>\<open>z\<close>). It stands for
  \<open>lc\<close> on the example inputs, which are ASCII, and nowhere else.
\<close>

definition asciiLowerCase_char :: "char \<Rightarrow> char" where
  "asciiLowerCase_char c =
     (let n = (of_char c :: nat) in if 65 \<le> n \<and> n \<le> 90 then char_of (n + 32) else c)"

definition asciiLowerCase :: "string \<Rightarrow> string" where
  "asciiLowerCase s = map asciiLowerCase_char s"

text \<open>
  \<^verbatim>\<open>s.startsWith(t)\<close> and \<^verbatim>\<open>s.includes(t)\<close>: \<^verbatim>\<open>t\<close> occurs in \<^verbatim>\<open>s\<close> at
  position 0, respectively at some position.
\<close>

fun startsWith :: "string \<Rightarrow> string \<Rightarrow> bool" where
  "startsWith s [] = True"
| "startsWith [] (b # t) = False"
| "startsWith (a # s) (b # t) = (a = b \<and> startsWith s t)"

fun includes_str :: "string \<Rightarrow> string \<Rightarrow> bool" where
  "includes_str [] t = (t = [])"
| "includes_str (a # s) t = (startsWith (a # s) t \<or> includes_str s t)"

section \<open>The combobox (src/unnamed/part_000)\<close>

text \<open>\<^verbatim>\<open>type ComboboxItem = {label: string, value: any}\<close>\<close>

record 'v ComboboxItem =
  label :: string
  itemValue :: 'v

text \<open>Line 7: \<^verbatim>\<open>(i ? i.label : '')\<close>.\<close>

definition itemToString :: "'v ComboboxItem nullable \<Rightarrow> string" where
  "itemToString i = (case i of Defined x \<Rightarrow> label x | _ \<Rightarrow> [])"

text \<open>
  The properties of \<^verbatim>\<open>IComboboxProps\<close> that the component's logic reads. An optional
  boolean that is absent is falsy, so the three flags are booleans; the optional callback is
  represented by whether the caller supplied it, its calls being recorded as effects.
\<close>

record 'v IComboboxProps =
  valueProp :: "string option"
  items :: "'v ComboboxItem list"
  hasOnSelectedItemChange :: bool
  resetAfterSelect :: bool
  blurAfterSelect :: bool
  keepOpenAfterSelect :: bool

text \<open>
  The mounted \<^verbatim>\<open>VariableSizeList\<close> behind \<^verbatim>\<open>listRef\<close>: its scroll offset and the
  index from which its cached row offsets have to be recomputed. A list that has just been
  mounted is at the top.
\<close>

record ListInstance =
  scrollOffset :: nat
  layoutDirtyFrom :: "nat option"

definition newList :: ListInstance where
  "newList = \<lparr>scrollOffset = 0, layoutDirtyFrom = None\<rparr>"

text \<open>
  The component's state: the two \<^verbatim>\<open>useState\<close> cells, the two refs of the
  virtualisation, and the highlighted index and the selected item of the combobox hook as the
  component reads them (lines 142 and 143; the index is \<open>-1\<close> when no row is highlighted,
  the item \<^verbatim>\<open>null\<close> when none is selected). Row heights are \<^verbatim>\<open>clientHeight\<close>
  values, that is natural numbers.
\<close>

record 'v ComboboxState =
  inputValue :: string
  filteredItems :: "'v ComboboxItem list"
  listRef :: "ListInstance option"
  rowHeights :: "nat \<rightharpoonup> nat"
  highlightedIndex :: int
  selectedItem :: "'v ComboboxItem nullable"

text \<open>
  Lines 65 to 67: \<^verbatim>\<open>rowHeights.current[ix] + 15 || 30\<close>. A missing entry is
  \<^verbatim>\<open>undefined\<close>, \<^verbatim>\<open>undefined + 15\<close> is \<^verbatim>\<open>NaN\<close>, which is falsy, as is 0.
\<close>

definition getRowHeight :: "(nat \<rightharpoonup> nat) \<Rightarrow> nat \<Rightarrow> nat" where
  "getRowHeight rh ix =
     (case rh ix of
        None \<Rightarrow> 30
      | Some h \<Rightarrow> (if h + 15 = 0 then 30 else h + 15))"

text \<open>
  Lines 69 to 72: \<^verbatim>\<open>listRef.current?.resetAfterIndex(0)\<close>, then the cache is replaced
  by a copy with the entry for \<^verbatim>\<open>ix\<close> set.
\<close>

definition resetAfterIndex :: "nat \<Rightarrow> ListInstance \<Rightarrow> ListInstance" where
  "resetAfterIndex i l =
     l\<lparr>layoutDirtyFrom :=
         (case layoutDirtyFrom l of None \<Rightarrow> Some i | Some j \<Rightarrow> Some (min i j))\<rparr>"

definition setRowHeight :: "nat \<Rightarrow> nat \<Rightarrow> 'v ComboboxState \<Rightarrow> 'v ComboboxState" where
  "setRowHeight ix height s =
     s\<lparr>listRef := map_option (resetAfterIndex 0) (listRef s),
       rowHeights := (rowHeights s)(ix \<mapsto> height)\<rparr>"

text \<open>
  Lines 74 to 77, the effect on \<^verbatim>\<open>[value]\<close>: \<^verbatim>\<open>if (value) setInputValue(value)\<close>.
  An absent value and the empty string are falsy.
\<close>

definition valueSyncEffect :: "'v IComboboxProps \<Rightarrow> 'v ComboboxState \<Rightarrow> 'v ComboboxState" where
  "valueSyncEffect props s =
     (case valueProp props of
        None \<Rightarrow> s
      | Some v \<Rightarrow> (if v \<noteq> [] then s\<lparr>inputValue := v\<rparr> else s))"

text \<open>
  Lines 79 to 89, the effect on \<^verbatim>\<open>[inputValue, items]\<close>. \<open>filterItems\<close> is the value
  it computes, \<open>filterEffect\<close> the state change \<^verbatim>\<open>setFilteredItems(newFilteredItems)\<close>.
\<close>

definition filterItems ::
  "(string \<Rightarrow> string) \<Rightarrow> 'v ComboboxItem list \<Rightarrow> string \<Rightarrow> 'v ComboboxItem list" where
  "filterItems lc its iv0 =
     (if iv0 \<noteq> []
      then (let iv = lc iv0
            in filter (\<lambda>v. includes_str (lc (label v)) iv) its)
      else its)"

definition filterEffect ::
  "(string \<Rightarrow> string) \<Rightarrow> 'v IComboboxProps \<Rightarrow> 'v ComboboxState \<Rightarrow> 'v ComboboxState" where
  "filterEffect lc props s = s\<lparr>filteredItems := filterItems lc (items props) (inputValue s)\<rparr>"

text \<open>
  Lines 56 to 63: the state at mount, before the effects have run. No list is mounted, the
  cache is the empty object, and the hook starts with no highlighted row and no selected item.
\<close>

definition initialState :: "'v IComboboxProps \<Rightarrow> 'v ComboboxState" where
  "initialState props =
     \<lparr>inputValue = (case valueProp props of None \<Rightarrow> [] | Some v \<Rightarrow> v),
      filteredItems = [],
      listRef = None,
      rowHeights = Map.empty,
      highlightedIndex = - 1,
      selectedItem = Null\<rparr>"

text \<open>
  Lines 153 to 157, the hook's \<^verbatim>\<open>onInputValueChange\<close>:
  \<^verbatim>\<open>setInputValue(newValue || '')\<close>, \<^verbatim>\<open>listRef.current?.scrollToItem(0)\<close>,
  \<^verbatim>\<open>setHighlightedIndex(0)\<close>.
\<close>

definition scrollToItem0 :: "ListInstance \<Rightarrow> ListInstance" where
  "scrollToItem0 l = l\<lparr>scrollOffset := 0\<rparr>"

definition onInputValueChange :: "string nullable \<Rightarrow> 'v ComboboxState \<Rightarrow> 'v ComboboxState" where
  "onInputValueChange newValue s =
     s\<lparr>inputValue := (case newValue of Defined v \<Rightarrow> v | _ \<Rightarrow> []),
       listRef := map_option scrollToItem0 (listRef s),
       highlightedIndex := 0\<rparr>"

text \<open>
  Lines 158 to 162, the hook's \<^verbatim>\<open>onSelectedItemChange\<close>, as the list of calls it
  makes, in order: the caller's callback with the reported item if the caller supplied one,
  the hook's \<^verbatim>\<open>reset()\<close> if \<^verbatim>\<open>resetAfterSelect\<close>, the input's \<^verbatim>\<open>blur()\<close> if
  \<^verbatim>\<open>blurAfterSelect\<close>.
\<close>

datatype 'v Effect = CallOutput "'v ComboboxItem nullable" | CallReset | CallBlur

definition onSelectedItemChange ::
  "'v IComboboxProps \<Rightarrow> 'v ComboboxItem nullable \<Rightarrow> 'v Effect list" where
  "onSelectedItemChange props sel =
     (if hasOnSelectedItemChange props then [CallOutput sel] else []) @
     (if resetAfterSelect props then [CallReset] else []) @
     (if blurAfterSelect props then [CallBlur] else [])"

text \<open>
  Lines 174 to 192, what a render does to the list: the \<^verbatim>\<open>List\<close> element is rendered
  only if \<^verbatim>\<open>isOpen\<close> and \<^verbatim>\<open>filteredItems.length\<close> are truthy. Otherwise a mounted
  list is unmounted, and its scroll position is gone; a list that stays rendered keeps its
  instance; one that appears is mounted anew. \<open>isOpen\<close> is what the hook returned for
  this render (line 144).
\<close>

definition render :: "bool \<Rightarrow> 'v ComboboxState \<Rightarrow> 'v ComboboxState" where
  "render isOpen s =
     s\<lparr>listRef :=
         (if isOpen \<and> filteredItems s \<noteq> []
          then (case listRef s of None \<Rightarrow> Some newList | Some l \<Rightarrow> Some l)
          else None)\<rparr>"

text \<open>
  Line 178, the \<^verbatim>\<open>height\<close> given to the list:
  \<^verbatim>\<open>filteredItems.length < 6 ? filteredItems.length * 35 : 200\<close>.
\<close>

definition listHeight :: "'a list \<Rightarrow> nat" where
  "listHeight fs = (if length fs < 6 then length fs * 35 else 200)"

section \<open>Events\<close>

text \<open>
  After a render, React runs the effects whose dependencies changed, and a state change
  made by an effect leads to another render. The filter effect computes the same
  \<open>filteredItems\<close> when it runs with unchanged dependencies, so each event below is
  followed by it and by the render of the resulting state. \<open>lc\<close> is the runtime's
  \<^verbatim>\<open>toLowerCase\<close>, \<open>isOpen\<close> what the hook returns for that render.
  \<^item> \<open>typeText\<close>: the hook reports a new input text; the handler of lines 153 to 157 runs,
    then the filter effect (its dependency \<^verbatim>\<open>inputValue\<close>).
  \<^item> \<open>changeItems\<close>: the caller renders the component with the new properties \<open>props'\<close>,
    whose \<^verbatim>\<open>items\<close> differ; the filter effect runs (its dependency \<^verbatim>\<open>items\<close>).
  \<^item> \<open>changeValue\<close>: the caller renders the component with the new properties \<open>props'\<close>,
    whose \<^verbatim>\<open>value\<close> differs; the value effect runs, then the filter effect.
\<close>

definition typeText ::
  "(string \<Rightarrow> string) \<Rightarrow> bool \<Rightarrow> 'v IComboboxProps \<Rightarrow> string
     \<Rightarrow> 'v ComboboxState \<Rightarrow> 'v ComboboxState" where
  "typeText lc isOpen props txt s =
     render isOpen (filterEffect lc props (onInputValueChange (Defined txt) s))"

definition changeItems ::
  "(string \<Rightarrow> string) \<Rightarrow> bool \<Rightarrow> 'v IComboboxProps \<Rightarrow> 'v ComboboxState \<Rightarrow> 'v ComboboxState" where
  "changeItems lc isOpen props' s = render isOpen (filterEffect lc props' s)"

definition changeValue ::
  "(string \<Rightarrow> string) \<Rightarrow> bool \<Rightarrow> 'v IComboboxProps \<Rightarrow> 'v ComboboxState \<Rightarrow> 'v ComboboxState" where
  "changeValue lc isOpen props' s =
     render isOpen (filterEffect lc props' (valueSyncEffect props' s))"

section \<open>The combobox hook\<close>

text \<open>
  Modelled from the spec: the combobox hook (\<^verbatim>\<open>useCombobox\<close> of the library downshift)
  is a dependency whose code is not among the sources. From sections 4.2 and 6 of the spec:
  a commit sets the selected item to the item of the committed row, and the hook reports
  every change of the selected item to the component's \<^verbatim>\<open>onSelectedItemChange\<close>, with the
  item or with the absent selection \<^verbatim>\<open>null\<close>; likewise it reports a change of the text
  to \<^verbatim>\<open>onInputValueChange\<close>. A value that did not change is not reported.

  \<open>hookChange\<close> is one such state change of the hook: the selected item becomes
  \<open>newItem\<close> and the text \<open>newText\<close>; the handlers of the component (lines 153 to 162) run
  for what changed. The calls made by \<^verbatim>\<open>onSelectedItemChange\<close> are returned; a
  \<^verbatim>\<open>reset()\<close> among them takes effect after the handlers have run.
\<close>

definition hookChange ::
  "'v IComboboxProps \<Rightarrow> 'v ComboboxItem nullable \<Rightarrow> string \<Rightarrow> 'v ComboboxState
     \<Rightarrow> 'v ComboboxState \<times> 'v Effect list" where
  "hookChange props newItem newText s =
     (let effects = (if newItem \<noteq> selectedItem s then onSelectedItemChange props newItem else []);
          s1 = s\<lparr>selectedItem := newItem\<rparr>;
          s2 = (if newText \<noteq> inputValue s then onInputValueChange (Defined newText) s1 else s1)
      in (s2, effects))"

text \<open>
  The arguments of the caller's callback among the calls a handler made, in order.
\<close>

fun outputCalls :: "'v Effect list \<Rightarrow> 'v ComboboxItem nullable list" where
  "outputCalls [] = []"
| "outputCalls (CallOutput x # es) = x # outputCalls es"
| "outputCalls (e # es) = outputCalls es"

text \<open>
  Modelled from the spec: the hook's \<^verbatim>\<open>reset()\<close>, which is not among the sources. The
  spec (section 4.2) has it clear the input text; the library documents it as restoring the
  hook's state to its defaults, which here are no selected item and the empty text. It is a
  state change of the hook like any other, so the handlers run again for what it changed
  and may call \<^verbatim>\<open>reset()\<close> again. \<open>runResets\<close> carries out the resets that the calls
  \<open>effects\<close> ask for, one after the other, and returns the final state with the arguments
  of all calls of the caller's callback, in order. The \<^verbatim>\<open>blur()\<close> of line 161 changes
  neither the selected item nor the text (section 4.2 of the spec).
\<close>

function runResets ::
  "'v IComboboxProps \<Rightarrow> 'v ComboboxState \<times> 'v Effect list
     \<Rightarrow> 'v ComboboxState \<times> 'v ComboboxItem nullable list" where
  "runResets props (s, effects) =
     (if CallReset \<in> set effects
      then (case runResets props (hookChange props Null [] s) of
              (s', outs) \<Rightarrow> (s', outputCalls effects @ outs))
      else (s, outputCalls effects))"
  by pat_completeness auto
termination
  by (relation "measure (\<lambda>(props, s, effects).
          if CallReset \<in> set effects then (if selectedItem s = Null then 1 else 2) else 0)")
     (auto simp: hookChange_def Let_def onInputValueChange_def)

text \<open>
  Modelled from the spec: a commit of row \<open>i\<close> of the menu (Enter on the highlighted row or
  a click on it, section 4.2). The hook is given \<^verbatim>\<open>items: filteredItems\<close> and
  \<^verbatim>\<open>itemToString\<close> (lines 149 and 151): the selected item becomes
  \<^verbatim>\<open>filteredItems[i]\<close> and the text its label. The result is the state once all handlers,
  resets and effects have run, and the arguments of the calls of the caller's callback.
  Without a row \<open>i\<close> there is nothing to commit.
\<close>

definition commit ::
  "(string \<Rightarrow> string) \<Rightarrow> bool \<Rightarrow> 'v IComboboxProps \<Rightarrow> nat \<Rightarrow> 'v ComboboxState
     \<Rightarrow> 'v ComboboxState \<times> 'v ComboboxItem nullable list" where
  "commit lc isOpen props i s =
     (if i < length (filteredItems s)
      then (let item = Defined (filteredItems s ! i)
            in case runResets props (hookChange props item (itemToString item) s) of
                 (s', outs) \<Rightarrow> (render isOpen (filterEffect lc props s'), outs))
      else (s, []))"

section \<open>Derived notions of the layout\<close>

text \<open>
  The list is given \<^verbatim>\<open>itemSize={getRowHeight}\<close> and \<^verbatim>\<open>itemCount\<close> rows, laid out one
  below the other: the rows' total height is the sum of \<open>getRowHeight\<close> over the indices
  below the count. The rows fit the viewport exactly when this sum is the viewport's height.
\<close>

definition rowsHeight :: "(nat \<rightharpoonup> nat) \<Rightarrow> nat \<Rightarrow> nat" where
  "rowsHeight rh n = sum_list (map (getRowHeight rh) [0..<n])"
section \<open>The equipment presets (EquipmentPresets.tsx)\<close>

text \<open>
  Modelled from the spec: the enum \<^verbatim>\<open>EquipmentPreset\<close> is declared in
  \<^verbatim>\<open>enums/EquipmentPreset\<close>, which is not among the sources. Its six members are the ones
  the component lists in \<^verbatim>\<open>presets\<close> and switches on; \<open>OTHER\<close> stands for any other
  value the field may hold at run time.
\<close>

datatype EquipmentPreset =
  DHAROKS | MAX_MELEE | MAX_RANGED | VERACS | VOID_MELEE | VOID_RANGED | OTHER nat

text \<open>
  An entry of \<^verbatim>\<open>availableEquipment\<close>; the component reads its \<^verbatim>\<open>id\<close> only.
\<close>

record EquipmentPiece =
  eq_id :: nat
  eq_name :: string

datatype Slot =
  Slot_head | Slot_cape | Slot_neck | Slot_ammo | Slot_weapon | Slot_body
  | Slot_shield | Slot_legs | Slot_hands | Slot_feet | Slot_ring

text \<open>
  \<^verbatim>\<open>PartialDeep<Player>\<close> as far as the component builds it: the object has the key
  \<^verbatim>\<open>equipment\<close> or no key at all, and an equipment object lists its slots in the order
  written, each holding a found piece, \<^verbatim>\<open>undefined\<close> (no piece has the id) or
  \<^verbatim>\<open>null\<close>.
\<close>

type_synonym Equipment = "(Slot \<times> EquipmentPiece nullable) list"

record PartialPlayer =
  equipment :: "Equipment option"

definition emptyPlayer :: PartialPlayer where
  "emptyPlayer = \<lparr>equipment = None\<rparr>"

definition objectKeysLength :: "PartialPlayer \<Rightarrow> nat" where
  "objectKeysLength p = (case equipment p of None \<Rightarrow> 0 | Some e \<Rightarrow> 1)"

text \<open>Line 24: \<^verbatim>\<open>availableEquipment.find((eq) => eq.id === id)\<close>.\<close>

definition findItemById :: "EquipmentPiece list \<Rightarrow> nat \<Rightarrow> EquipmentPiece nullable" where
  "findItemById availableEquipment i =
     (case find (\<lambda>eq. eq_id eq = i) availableEquipment of
        None \<Rightarrow> Undefined
      | Some eq \<Rightarrow> Defined eq)"

text \<open>\<^verbatim>\<open>v?.value\<close>\<close>

definition optValue :: "'v ComboboxItem nullable \<Rightarrow> 'v nullable" where
  "optValue v = (case v of Defined it \<Rightarrow> Defined (itemValue it) | _ \<Rightarrow> Undefined)"

text \<open>
  Lines 26 to 129, the \<^verbatim>\<open>switch\<close>, its cases in the order written; \<open>f\<close> is
  \<^verbatim>\<open>findItemById\<close>.
\<close>

definition presetPlayer ::
  "(nat \<Rightarrow> EquipmentPiece nullable) \<Rightarrow> EquipmentPreset nullable \<Rightarrow> PartialPlayer" where
  "presetPlayer f pv =
     (if pv = Defined DHAROKS then
        \<lparr>equipment = Some
          [(Slot_head, f 4880), (Slot_cape, f 21295), (Slot_neck, f 19553),
           (Slot_ammo, f 22947), (Slot_weapon, f 4718), (Slot_body, f 4892),
           (Slot_shield, Null), (Slot_legs, f 4898), (Slot_hands, f 22981),
           (Slot_feet, f 13239), (Slot_ring, f 28307)]\<rparr>
      else if pv = Defined MAX_MELEE then
        \<lparr>equipment = Some
          [(Slot_head, f 26382), (Slot_cape, f 21295), (Slot_neck, f 19553),
           (Slot_ammo, f 22947), (Slot_body, f 26384), (Slot_legs, f 26386),
           (Slot_hands, f 22981), (Slot_feet, f 13239), (Slot_ring, f 28307)]\<rparr>
      else if pv = Defined MAX_RANGED then
        \<lparr>equipment = Some
          [(Slot_head, f 27235), (Slot_cape, f 22109), (Slot_neck, f 19547),
           (Slot_ammo, f 11212), (Slot_body, f 27238), (Slot_legs, f 27241),
           (Slot_hands, f 26235), (Slot_feet, f 13237), (Slot_ring, f 28310)]\<rparr>
      else if pv = Defined VOID_MELEE then
        \<lparr>equipment = Some
          [(Slot_head, f 11665), (Slot_cape, f 21295), (Slot_neck, f 19553),
           (Slot_ammo, f 22947), (Slot_body, f 13072), (Slot_legs, f 13073),
           (Slot_hands, f 8842), (Slot_feet, f 13239), (Slot_ring, f 28307)]\<rparr>
      else if pv = Defined VOID_RANGED then
        \<lparr>equipment = Some
          [(Slot_head, f 11664), (Slot_cape, f 22109), (Slot_neck, f 19547),
           (Slot_ammo, f 11212), (Slot_body, f 13072), (Slot_legs, f 13073),
           (Slot_hands, f 8842), (Slot_feet, f 13237), (Slot_ring, f 28310)]\<rparr>
      else if pv = Defined VERACS then
        \<lparr>equipment = Some
          [(Slot_head, f 4976), (Slot_cape, f 21295), (Slot_neck, f 19553),
           (Slot_ammo, f 22947), (Slot_weapon, f 4755), (Slot_body, f 4988),
           (Slot_shield, Null), (Slot_legs, f 4994), (Slot_hands, f 22981),
           (Slot_feet, f 13239), (Slot_ring, f 28307)]\<rparr>
      else emptyPlayer)"

text \<open>
  Lines 21 to 134, \<^verbatim>\<open>onSelect\<close>, as the list of the arguments of its calls of
  \<^verbatim>\<open>store.updatePlayer\<close>, in order.
\<close>

definition onSelect ::
  "EquipmentPiece list \<Rightarrow> EquipmentPreset ComboboxItem nullable \<Rightarrow> PartialPlayer list" where
  "onSelect availableEquipment v =
     (let newPlayer = presetPlayer (findItemById availableEquipment) (optValue v)
      in if objectKeysLength newPlayer > 0 then [newPlayer] else [])"

definition sixPresets :: "EquipmentPreset set" where
  "sixPresets = {DHAROKS, MAX_MELEE, MAX_RANGED, VERACS, VOID_MELEE, VOID_RANGED}"

section \<open>Example inputs\<close>

definition exampleItems :: "nat ComboboxItem list" where
  "exampleItems =
     [\<lparr>label = ''Dragon dagger'', itemValue = 1\<rparr>,
      \<lparr>label = ''Dragon spear'', itemValue = 2\<rparr>,
      \<lparr>label = ''Rune sword'', itemValue = 3\<rparr>]"

definition exampleProps :: "nat IComboboxProps" where
  "exampleProps =
     \<lparr>valueProp = None, items = exampleItems, hasOnSelectedItemChange = True,
      resetAfterSelect = False, blurAfterSelect = False, keepOpenAfterSelect = False\<rparr>"

text \<open>
  The menu is open on the three example items, scrolled by 20 units, with the third row
  highlighted, the height of the second row measured as 40, and no item selected.
\<close>

definition openState :: "nat ComboboxState" where
  "openState =
     \<lparr>inputValue = ''r'',
      filteredItems = exampleItems,
      listRef = Some \<lparr>scrollOffset = 20, layoutDirtyFrom = None\<rparr>,
      rowHeights = [1 \<mapsto> 40],
      highlightedIndex = 2,
      selectedItem = Null\<rparr>"

definition moreItems :: "nat ComboboxItem list" where
  "moreItems = exampleItems @ [\<lparr>label = ''Rune axe'', itemValue = 4\<rparr>]"

definition exampleEquipment :: "EquipmentPiece list" where
  "exampleEquipment =
     [\<lparr>eq_id = 4880, eq_name = ''Dharok's helm''\<rparr>,
      \<lparr>eq_id = 21295, eq_name = ''Infernal cape''\<rparr>]"

section \<open>The filter\<close>

lemma startsWith_iff: "startsWith s t \<longleftrightarrow> (\<exists>post. s = t @ post)"
  by (induction s t rule: startsWith.induct) auto

lemma includes_str_iff: "includes_str s t \<longleftrightarrow> (\<exists>pre post. s = pre @ t @ post)"
proof (induction s)
  case Nil
  then show ?case by simp
next
  case (Cons a s)
  show ?case
  proof
    assume "includes_str (a # s) t"
    then consider "startsWith (a # s) t" | "includes_str s t" by auto
    then show "\<exists>pre post. a # s = pre @ t @ post"
    proof cases
      case 1
      then obtain post where "a # s = t @ post" using startsWith_iff by blast
      then have "a # s = [] @ t @ post" by simp
      then show ?thesis by blast
    next
      case 2
      then obtain pre post where "s = pre @ t @ post" using Cons.IH by blast
      then have "a # s = (a # pre) @ t @ post" by simp
      then show ?thesis by blast
    qed
  next
    assume "\<exists>pre post. a # s = pre @ t @ post"
    then obtain pre post where e: "a # s = pre @ t @ post" by blast
    show "includes_str (a # s) t"
    proof (cases pre)
      case Nil
      with e have "startsWith (a # s) t" using startsWith_iff by auto
      then show ?thesis by simp
    next
      case (Cons b pre')
      with e have "s = pre' @ t @ post" by simp
      then have "includes_str s t" using Cons.IH by blast
      then show ?thesis by simp
    qed
  qed
qed

lemma filterItems_example:
  "filterItems asciiLowerCase exampleItems ''DRAGON'' =
     [\<lparr>label = ''Dragon dagger'', itemValue = 1\<rparr>, \<lparr>label = ''Dragon spear'', itemValue = 2\<rparr>]"
  by code_simp

text \<open>
  C1. For every item list \<open>L\<close> and query \<open>Q\<close>: the label of every element of the filtered
  view contains \<open>Q\<close> case-insensitively, that is, the lower-cased query occurs in the
  lower-cased label; the filtered view is a subsequence of \<open>L\<close>, in the order of \<open>L\<close>; and
  for the empty query the filtered view is \<open>L\<close> itself. This holds whatever
  \<^verbatim>\<open>toLowerCase\<close> computes, given only that it maps the empty string to itself.
\<close>

theorem filterItems_matches_in_order:
  assumes "lc [] = []"
  shows "(\<forall>x \<in> set (filterItems lc L Q). \<exists>pre post. lc (label x) = pre @ lc Q @ post)
   \<and> subseq (filterItems lc L Q) L
   \<and> filterItems lc L [] = L"
proof (intro conjI ballI)
  fix x assume x: "x \<in> set (filterItems lc L Q)"
  show "\<exists>pre post. lc (label x) = pre @ lc Q @ post"
  proof (cases "Q = []")
    case True
    with assms have "lc (label x) = [] @ lc Q @ lc (label x)" by simp
    then show ?thesis by blast
  next
    case False
    with x have "includes_str (lc (label x)) (lc Q)"
      by (simp add: filterItems_def)
    then show ?thesis by (simp only: includes_str_iff)
  qed
next
  show "subseq (filterItems lc L Q) L" by (simp add: filterItems_def)
next
  show "filterItems lc L [] = L" by (simp add: filterItems_def)
qed

theorem filterItems_matches_in_order_witness:
  "asciiLowerCase [] = []
   \<and> \<lparr>label = ''Dragon spear'', itemValue = 2\<rparr>
       \<in> set (filterItems asciiLowerCase exampleItems ''DRAGON'')
   \<and> (\<exists>pre post. asciiLowerCase ''Dragon spear'' = pre @ asciiLowerCase ''DRAGON'' @ post)
   \<and> subseq (filterItems asciiLowerCase exampleItems ''DRAGON'') exampleItems
   \<and> filterItems asciiLowerCase exampleItems [] = exampleItems"
proof -
  have e: "asciiLowerCase [] = []" by (simp add: asciiLowerCase_def)
  have m: "\<lparr>label = ''Dragon spear'', itemValue = 2\<rparr>
             \<in> set (filterItems asciiLowerCase exampleItems ''DRAGON'')"
    by (simp add: filterItems_example)
  from filterItems_matches_in_order [of asciiLowerCase exampleItems "''DRAGON''"] m e
  show ?thesis by fastforce
qed

section \<open>Row heights and the viewport\<close>

lemma upt_3: "[0..<3] = [0, 1, 2]"
  by code_simp

lemma rowsHeight_one_measured: "rowsHeight [2 \<mapsto> 40] 3 = 115"
  by (simp add: rowsHeight_def getRowHeight_def upt_3)

text \<open>
  C3. For every row index, the height the layout uses for the row is the recorded height plus
  15 when a height is recorded and 30 when none is. After recording the height 40 for a row,
  its layout height is 55; with row 2 measured as 40 and rows 0 and 1 unmeasured, row 3 starts
  at 30 + 30 + 55.
\<close>

theorem getRowHeight_measured_or_default:
  "getRowHeight rh ix = (case rh ix of None \<Rightarrow> 30 | Some h \<Rightarrow> h + 15)
   \<and> getRowHeight (rowHeights (setRowHeight ix h s)) ix = h + 15
   \<and> getRowHeight (rowHeights (setRowHeight 2 40 s)) 2 = 55
   \<and> rowsHeight (rowHeights (setRowHeight 2 40 (initialState props))) 3 = 30 + 30 + 55"
proof (intro conjI)
  show "getRowHeight rh ix = (case rh ix of None \<Rightarrow> 30 | Some h \<Rightarrow> h + 15)"
    by (simp add: getRowHeight_def split: option.split)
  show "getRowHeight (rowHeights (setRowHeight ix h s)) ix = h + 15"
    by (simp add: getRowHeight_def setRowHeight_def)
  show "getRowHeight (rowHeights (setRowHeight 2 40 s)) 2 = 55"
    by (simp add: getRowHeight_def setRowHeight_def)
  have "rowHeights (setRowHeight 2 40 (initialState props)) = [2 \<mapsto> 40]"
    by (simp add: setRowHeight_def initialState_def)
  then show "rowsHeight (rowHeights (setRowHeight 2 40 (initialState props))) 3 = 30 + 30 + 55"
    by (simp add: rowsHeight_one_measured)
qed

lemma listHeight_example: "listHeight (filteredItems openState) = 105"
  by (simp add: listHeight_def openState_def exampleItems_def)

lemma rowsHeight_example:
  "rowsHeight (rowHeights openState) (length (filteredItems openState)) = 115"
  by (simp add: rowsHeight_def getRowHeight_def openState_def exampleItems_def upt_3)

lemma rowsHeight_uniform:
  "(\<forall>i<n. getRowHeight rh i = k) \<Longrightarrow> rowsHeight rh n = n * k"
  unfolding rowsHeight_def by (induction n) auto

lemma rowsHeight_at_most:
  "(\<forall>i<n. getRowHeight rh i \<le> k) \<Longrightarrow> rowsHeight rh n \<le> n * k"
  unfolding rowsHeight_def
proof (induction n)
  case 0
  then show ?case by simp
next
  case (Suc n)
  then have "sum_list (map (getRowHeight rh) [0..<n]) \<le> n * k" and "getRowHeight rh n \<le> k"
    by auto
  then show ?case by simp
qed

lemma rowsHeight_more_than:
  "0 < n \<Longrightarrow> (\<forall>i<n. k < getRowHeight rh i) \<Longrightarrow> n * k < rowsHeight rh n"
  unfolding rowsHeight_def
proof (induction n)
  case 0
  then show ?case by simp
next
  case (Suc n)
  have last: "k < getRowHeight rh n" using Suc.prems by auto
  show ?case
  proof (cases "n = 0")
    case True
    with last show ?thesis by simp
  next
    case False
    with Suc have "n * k < sum_list (map (getRowHeight rh) [0..<n])" by auto
    with last show ?thesis by simp
  qed
qed

lemma getRowHeight_measured: "rh i = Some h \<Longrightarrow> getRowHeight rh i = h + 15"
  by (simp add: getRowHeight_def)

text \<open>
  C6, as stated, fails: with three matches, the second measured as 40, the viewport is 105
  units high while the rows take 115, so the viewport does not fit them.
\<close>

theorem viewport_fit_counterexample:
  "length (filteredItems openState) < 6
   \<and> listHeight (filteredItems openState)
       < rowsHeight (rowHeights openState) (length (filteredItems openState))"
  by (simp add: listHeight_example rowsHeight_example) (simp add: openState_def exampleItems_def)

text \<open>
  C6, amended. For \<open>n\<close> matches the viewport height is \<open>35 * n\<close> if \<open>n < 6\<close> and 200
  otherwise, never more than 200. Below the threshold: if every row has the layout height
  35, the viewport is exactly as high as the rows together; if every row has a layout height
  of at most 35, the rows take no more than the viewport; and if there is at least one row
  and every row is measured taller than 20, the rows take more than the viewport.
\<close>

theorem listHeight_policy:
  "listHeight fs = (if length fs < 6 then length fs * 35 else 200)
   \<and> listHeight fs \<le> 200
   \<and> (length fs < 6 \<and> (\<forall>i<length fs. getRowHeight rh i = 35)
        \<longrightarrow> rowsHeight rh (length fs) = listHeight fs)
   \<and> (length fs < 6 \<and> (\<forall>i<length fs. getRowHeight rh i \<le> 35)
        \<longrightarrow> rowsHeight rh (length fs) \<le> listHeight fs)
   \<and> (0 < length fs \<and> length fs < 6 \<and> (\<forall>i<length fs. \<exists>h. rh i = Some h \<and> 20 < h)
        \<longrightarrow> listHeight fs < rowsHeight rh (length fs))"
proof (intro conjI impI)
  show "listHeight fs = (if length fs < 6 then length fs * 35 else 200)"
    by (simp add: listHeight_def)
  show "listHeight fs \<le> 200" by (simp add: listHeight_def)
next
  assume "length fs < 6 \<and> (\<forall>i<length fs. getRowHeight rh i = 35)"
  then show "rowsHeight rh (length fs) = listHeight fs"
    by (simp add: listHeight_def rowsHeight_uniform)
next
  assume "length fs < 6 \<and> (\<forall>i<length fs. getRowHeight rh i \<le> 35)"
  then show "rowsHeight rh (length fs) \<le> listHeight fs"
    using rowsHeight_at_most [of "length fs" rh 35] by (simp add: listHeight_def)
next
  assume a: "0 < length fs \<and> length fs < 6 \<and> (\<forall>i<length fs. \<exists>h. rh i = Some h \<and> 20 < h)"
  then have "\<forall>i<length fs. 35 < getRowHeight rh i"
    by (auto simp: getRowHeight_measured)
  with a have "length fs * 35 < rowsHeight rh (length fs)"
    using rowsHeight_more_than [of "length fs" 35 rh] by simp
  with a show "listHeight fs < rowsHeight rh (length fs)"
    by (simp add: listHeight_def)
qed

theorem listHeight_policy_witness:
  "rowsHeight [0 \<mapsto> 20, 1 \<mapsto> 20, 2 \<mapsto> 20] (length exampleItems) = listHeight exampleItems
   \<and> rowsHeight Map.empty (length exampleItems) \<le> listHeight exampleItems
   \<and> listHeight exampleItems < rowsHeight [0 \<mapsto> 21, 1 \<mapsto> 40, 2 \<mapsto> 25] (length exampleItems)
   \<and> listHeight exampleItems = 105"
proof -
  have n: "length exampleItems < 6" "0 < length exampleItems" by (simp_all add: exampleItems_def)
  have h1: "\<forall>i<length exampleItems. getRowHeight [0 \<mapsto> 20, 1 \<mapsto> 20, 2 \<mapsto> 20] i = 35"
    by (simp add: exampleItems_def getRowHeight_def less_Suc_eq numeral_3_eq_3)
  have h2: "\<forall>i<length exampleItems. getRowHeight Map.empty i \<le> 35"
    by (simp add: getRowHeight_def)
  have h3: "\<forall>i<length exampleItems. \<exists>h. [0 \<mapsto> 21, 1 \<mapsto> 40, 2 \<mapsto> 25] i = Some h \<and> (20::nat) < h"
    by (simp add: exampleItems_def less_Suc_eq numeral_3_eq_3)
  have "rowsHeight [0 \<mapsto> 20, 1 \<mapsto> 20, 2 \<mapsto> 20] (length exampleItems) = listHeight exampleItems"
    using listHeight_policy [of exampleItems "[0 \<mapsto> 20, 1 \<mapsto> 20, 2 \<mapsto> 20]"] n h1 by blast
  moreover have "rowsHeight Map.empty (length exampleItems) \<le> listHeight exampleItems"
    using listHeight_policy [of exampleItems Map.empty] n h2 by blast
  moreover have "listHeight exampleItems
       < rowsHeight [0 \<mapsto> 21, 1 \<mapsto> 40, 2 \<mapsto> 25] (length exampleItems)"
    using listHeight_policy [of exampleItems "[0 \<mapsto> 21, 1 \<mapsto> 40, 2 \<mapsto> 25]"] n h3 by blast
  moreover have "listHeight exampleItems = 105"
    by (simp add: listHeight_def exampleItems_def)
  ultimately show ?thesis by simp
qed

section \<open>What a recomputation of the filtered view resets\<close>

lemma typeText_example:
  "filteredItems (typeText asciiLowerCase True exampleProps ''dragon'' openState)
     = [\<lparr>label = ''Dragon dagger'', itemValue = 1\<rparr>, \<lparr>label = ''Dragon spear'', itemValue = 2\<rparr>]"
  by code_simp

lemma changeItems_example:
  "filteredItems (changeItems asciiLowerCase True (exampleProps\<lparr>items := moreItems\<rparr>) openState)
     = moreItems"
  by code_simp

text \<open>
  C2, as stated, fails: typing \<^verbatim>\<open>dragon\<close> into the open menu changes the filtered view
  from three rows to two, and the height 40 recorded for index 1 under the old view is
  still recorded for index 1 of the new one.
\<close>

theorem rowHeights_kept_counterexample:
  "filteredItems (typeText asciiLowerCase True exampleProps ''dragon'' openState)
     = [\<lparr>label = ''Dragon dagger'', itemValue = 1\<rparr>, \<lparr>label = ''Dragon spear'', itemValue = 2\<rparr>]
   \<and> filteredItems openState
       \<noteq> filteredItems (typeText asciiLowerCase True exampleProps ''dragon'' openState)
   \<and> rowHeights (typeText asciiLowerCase True exampleProps ''dragon'' openState) 1 = Some 40"
  by (simp add: typeText_example)
     (simp add: typeText_def render_def filterEffect_def onInputValueChange_def openState_def
        exampleItems_def)

text \<open>
  C2, amended. No recomputation of the filtered view touches the row height cache: the
  filter effect, a change of the text, of the item list and of the value all leave every
  recorded height in place. The cache changes only when a row is measured, and then only at
  that row's index, where the new height replaces the old one.
\<close>

theorem rowHeights_only_set_by_measurement:
  "rowHeights (filterEffect lc props s) = rowHeights s
   \<and> rowHeights (typeText lc isOpen props txt s) = rowHeights s
   \<and> rowHeights (changeItems lc isOpen props s) = rowHeights s
   \<and> rowHeights (changeValue lc isOpen props s) = rowHeights s
   \<and> rowHeights (setRowHeight ix h s) = (rowHeights s)(ix \<mapsto> h)"
  by (simp add: filterEffect_def typeText_def changeItems_def changeValue_def render_def
      valueSyncEffect_def onInputValueChange_def setRowHeight_def split: option.split)

lemma filter_moreItems: "filterItems asciiLowerCase moreItems ''r'' = moreItems"
  by code_simp

text \<open>
  C7, as stated, fails: when the item list changes while the menu is open, scrolled by 20
  units and with row 2 highlighted, the filtered view is recomputed (it gets a fourth row),
  but the highlighted index is still 2 and the scroll offset still 20.
\<close>

theorem no_reset_on_items_change_counterexample:
  "filteredItems (changeItems asciiLowerCase True (exampleProps\<lparr>items := moreItems\<rparr>) openState)
     = moreItems
   \<and> filteredItems openState \<noteq> moreItems
   \<and> highlightedIndex
        (changeItems asciiLowerCase True (exampleProps\<lparr>items := moreItems\<rparr>) openState) = 2
   \<and> map_option scrollOffset
        (listRef (changeItems asciiLowerCase True (exampleProps\<lparr>items := moreItems\<rparr>) openState))
       = Some 20"
proof -
  have s: "changeItems asciiLowerCase True (exampleProps\<lparr>items := moreItems\<rparr>) openState
           = openState\<lparr>filteredItems := moreItems\<rparr>"
    by (simp add: changeItems_def filterEffect_def render_def openState_def filter_moreItems)
       (simp add: moreItems_def)
  show ?thesis
    unfolding s by (simp add: openState_def moreItems_def)
qed

text \<open>
  C7, amended. A change of the input text sets the highlighted index to 0, and the filtered
  view is recomputed from the new text; the list, which is mounted exactly if the menu is
  open and the new view is not empty, is then at the top. A recomputation caused by a change
  of the item list or of the value resets nothing: the highlighted index stays as it was,
  and a list that stays mounted (the menu is open and the new view is not empty) keeps its
  scroll position. A list that is mounted anew is at the top, and with the menu closed or an
  empty view no list is mounted.
\<close>

theorem reset_on_input_change_only:
  "highlightedIndex (typeText lc isOpen props txt s) = 0
   \<and> map_option scrollOffset (listRef (typeText lc isOpen props txt s))
       = (if isOpen \<and> filterItems lc (items props) txt \<noteq> [] then Some 0 else None)
   \<and> filteredItems (typeText lc isOpen props txt s) = filterItems lc (items props) txt
   \<and> highlightedIndex (changeItems lc isOpen props s) = highlightedIndex s
   \<and> listRef (changeItems lc isOpen props s)
       = (if isOpen \<and> filteredItems (changeItems lc isOpen props s) \<noteq> []
          then (case listRef s of None \<Rightarrow> Some newList | Some l \<Rightarrow> Some l) else None)
   \<and> highlightedIndex (changeValue lc isOpen props s) = highlightedIndex s
   \<and> listRef (changeValue lc isOpen props s)
       = (if isOpen \<and> filteredItems (changeValue lc isOpen props s) \<noteq> []
          then (case listRef s of None \<Rightarrow> Some newList | Some l \<Rightarrow> Some l) else None)"
  by (simp add: typeText_def changeItems_def changeValue_def filterEffect_def render_def
      onInputValueChange_def valueSyncEffect_def scrollToItem0_def newList_def
      split: option.split)

section \<open>The value configuration\<close>

text \<open>
  C9, as stated, fails: when the caller changes the value to the empty string while the
  text is \<^verbatim>\<open>r\<close>, the text stays \<^verbatim>\<open>r\<close>.
\<close>

theorem value_sync_counterexample:
  "inputValue (changeValue asciiLowerCase True (exampleProps\<lparr>valueProp := Some ''''\<rparr>) openState)
     = ''r''"
  by (simp add: changeValue_def filterEffect_def render_def valueSyncEffect_def openState_def)

text \<open>
  C9, amended. After a change of the value configuration the displayed text is the new
  value if that is a non-empty string; if the new value is absent or the empty string the
  text is left as it was. The filtered view then follows the text.
\<close>

theorem value_sync_nonempty:
  "inputValue (changeValue lc isOpen props s) =
     (case valueProp props of
        None \<Rightarrow> inputValue s
      | Some v \<Rightarrow> if v = [] then inputValue s else v)
   \<and> filteredItems (changeValue lc isOpen props s)
       = filterItems lc (items props) (inputValue (changeValue lc isOpen props s))"
  by (simp add: changeValue_def filterEffect_def render_def valueSyncEffect_def split: option.split)

section \<open>Commits and the selection callback\<close>

declare runResets.simps [simp del]

lemma outputCalls_handler:
  "outputCalls (onSelectedItemChange props sel) = (if hasOnSelectedItemChange props then [sel] else [])"
  by (simp add: onSelectedItemChange_def)

lemma reset_in_handler:
  "CallReset \<in> set (onSelectedItemChange props sel) \<longleftrightarrow> resetAfterSelect props"
  by (simp add: onSelectedItemChange_def)

lemma runResets_done:
  "CallReset \<notin> set effects \<Longrightarrow> runResets props (s, effects) = (s, outputCalls effects)"
  by (simp add: runResets.simps)

lemma hookChange_idle:
  "selectedItem s = Null \<Longrightarrow> inputValue s = [] \<Longrightarrow> hookChange props Null [] s = (s, [])"
  by (simp add: hookChange_def)

lemma hookChange_reset_state:
  "inputValue (fst (hookChange props Null [] s)) = []
   \<and> selectedItem (fst (hookChange props Null [] s)) = Null"
  by (simp add: hookChange_def Let_def onInputValueChange_def)

lemma hookChange_reset_effects:
  "snd (hookChange props Null [] s)
     = (if selectedItem s = Null then [] else onSelectedItemChange props Null)"
  by (auto simp: hookChange_def Let_def)

lemma runResets_idle:
  "selectedItem s = Null \<Longrightarrow> inputValue s = [] \<Longrightarrow> runResets props (s, effects) = (s, outputCalls effects)"
proof (cases "CallReset \<in> set effects")
  case False
  then show ?thesis by (rule runResets_done)
next
  case True
  assume a: "selectedItem s = Null" "inputValue s = []"
  have "runResets props (s, []) = (s, [])" by (simp add: runResets_done)
  with True a show ?thesis
    by (simp add: runResets.simps [of props s effects] hookChange_idle)
qed

lemma runResets_reset:
  assumes "CallReset \<in> set effects"
  shows "runResets props (s, effects)
     = (fst (hookChange props Null [] s),
        outputCalls effects @ outputCalls (snd (hookChange props Null [] s)))"
proof -
  obtain s2 e2 where h: "hookChange props Null [] s = (s2, e2)"
    by (cases "hookChange props Null [] s")
  from hookChange_reset_state [of props s] h
  have "selectedItem s2 = Null" "inputValue s2 = []" by simp_all
  then have "runResets props (s2, e2) = (s2, outputCalls e2)" by (rule runResets_idle)
  with assms h show ?thesis
    by (simp add: runResets.simps [of props s effects])
qed

lemma hookChange_commit_effects:
  "snd (hookChange props item txt s)
     = (if item = selectedItem s then [] else onSelectedItemChange props item)"
  by (auto simp: hookChange_def Let_def)

lemma hookChange_selected:
  "selectedItem (fst (hookChange props item txt s)) = item"
  by (simp add: hookChange_def Let_def onInputValueChange_def)

lemma render_filter_fields:
  "inputValue (render isOpen (filterEffect lc props s)) = inputValue s
   \<and> selectedItem (render isOpen (filterEffect lc props s)) = selectedItem s
   \<and> filteredItems (render isOpen (filterEffect lc props s)) = filterItems lc (items props) (inputValue s)"
  by (simp add: render_def filterEffect_def)

lemma commit_reset_example:
  "snd (commit asciiLowerCase False (exampleProps\<lparr>resetAfterSelect := True\<rparr>) 2 openState)
     = [Defined \<lparr>label = ''Rune sword'', itemValue = 3\<rparr>, Null]"
  "selectedItem
     (fst (commit asciiLowerCase False (exampleProps\<lparr>resetAfterSelect := True\<rparr>) 2 openState))
     = Null"
  "inputValue
     (fst (commit asciiLowerCase False (exampleProps\<lparr>resetAfterSelect := True\<rparr>) 2 openState))
     = []"
  by code_simp+

text \<open>
  C4, as stated, fails: with reset-after-select on, one commit of row 2 of the open menu
  invokes the caller's callback twice, first with the item of row 2, then with
  \<^verbatim>\<open>null\<close>, because the reset that follows the commit clears the selection and the
  hook reports that change too.
\<close>

theorem two_calls_counterexample:
  "snd (commit asciiLowerCase False (exampleProps\<lparr>resetAfterSelect := True\<rparr>) 2 openState)
     = [Defined \<lparr>label = ''Rune sword'', itemValue = 3\<rparr>, Null]"
  by (simp add: commit_reset_example)

text \<open>
  C4, amended. Let the caller have supplied a callback, and let row \<open>i\<close> of the filtered
  view be committed. If its item is not the selected item already, the callback is invoked
  with exactly the item at index \<open>i\<close>; with reset-after-select off this is the only
  invocation, with reset-after-select on the callback is invoked exactly once more, with
  \<^verbatim>\<open>null\<close>. If the item is the selected item already, the selection does not change and
  the callback is not invoked.
\<close>

theorem commit_callback_calls:
  assumes "i < length (filteredItems s)" and "hasOnSelectedItemChange props"
  shows "snd (commit lc isOpen props i s) =
     (if selectedItem s = Defined (filteredItems s ! i) then []
      else if resetAfterSelect props then [Defined (filteredItems s ! i), Null]
      else [Defined (filteredItems s ! i)])"
proof -
  define item where "item = Defined (filteredItems s ! i)"
  obtain s1 e1 where h: "hookChange props item (itemToString item) s = (s1, e1)"
    by (cases "hookChange props item (itemToString item) s")
  have c: "snd (commit lc isOpen props i s) = snd (runResets props (s1, e1))"
    using assms(1) h by (simp add: commit_def item_def split: prod.split)
  have e1: "e1 = (if item = selectedItem s then [] else onSelectedItemChange props item)"
    using hookChange_commit_effects [of props item "itemToString item" s] h by simp
  have sel: "selectedItem s1 = item"
    using hookChange_selected [of props item "itemToString item" s] h by simp
  have "snd (runResets props (s1, e1)) =
     (if selectedItem s = item then []
      else if resetAfterSelect props then [item, Null]
      else [item])"
  proof (cases "selectedItem s = item")
    case True
    with e1 have "e1 = []" by simp
    then show ?thesis using True by (simp add: runResets_done)
  next
    case False
    with e1 have e: "e1 = onSelectedItemChange props item" by auto
    show ?thesis
    proof (cases "resetAfterSelect props")
      case True
      then have "CallReset \<in> set e1" by (simp add: e reset_in_handler)
      then have "snd (runResets props (s1, e1))
         = outputCalls e1 @ outputCalls (snd (hookChange props Null [] s1))"
        by (simp add: runResets_reset)
      also have "\<dots> = [item, Null]"
        using assms(2) sel by (simp add: e outputCalls_handler hookChange_reset_effects item_def)
      finally show ?thesis using False True by simp
    next
      case nr: False
      then have "CallReset \<notin> set e1" by (simp add: e reset_in_handler)
      then have "snd (runResets props (s1, e1)) = outputCalls e1"
        by (simp add: runResets_done)
      with assms(2) False nr show ?thesis by (simp add: e outputCalls_handler)
    qed
  qed
  with c show ?thesis by (simp add: item_def)
qed

theorem commit_callback_calls_witness:
  "snd (commit asciiLowerCase False exampleProps 2 openState)
     = [Defined \<lparr>label = ''Rune sword'', itemValue = 3\<rparr>]
   \<and> snd (commit asciiLowerCase True (exampleProps\<lparr>resetAfterSelect := True\<rparr>) 0 openState)
     = [Defined \<lparr>label = ''Dragon dagger'', itemValue = 1\<rparr>, Null]"
proof -
  have i: "2 < length (filteredItems openState)" "0 < length (filteredItems openState)"
    by (simp_all add: openState_def exampleItems_def)
  have c: "hasOnSelectedItemChange exampleProps"
    "hasOnSelectedItemChange (exampleProps\<lparr>resetAfterSelect := True\<rparr>)"
    by (simp_all add: exampleProps_def)
  have "snd (commit asciiLowerCase False exampleProps 2 openState)
     = [Defined \<lparr>label = ''Rune sword'', itemValue = 3\<rparr>]"
    using commit_callback_calls [OF i(1) c(1), of asciiLowerCase False]
    by (simp add: openState_def exampleItems_def exampleProps_def)
  moreover have
    "snd (commit asciiLowerCase True (exampleProps\<lparr>resetAfterSelect := True\<rparr>) 0 openState)
     = [Defined \<lparr>label = ''Dragon dagger'', itemValue = 1\<rparr>, Null]"
    using commit_callback_calls [OF i(2) c(2), of asciiLowerCase True]
    by (simp add: openState_def exampleItems_def)
  ultimately show ?thesis by simp
qed

text \<open>
  C5, as stated, fails: with reset-after-select on, after the commit of row 2 of the open
  menu (the item \<^verbatim>\<open>Rune sword\<close>) the selected item is \<^verbatim>\<open>null\<close>, not that item.
\<close>

theorem selection_cleared_counterexample:
  "filteredItems openState ! 2 = \<lparr>label = ''Rune sword'', itemValue = 3\<rparr>
   \<and> selectedItem
        (fst (commit asciiLowerCase False (exampleProps\<lparr>resetAfterSelect := True\<rparr>) 2 openState))
       = Null"
  by (simp add: commit_reset_example) (simp add: openState_def exampleItems_def)

text \<open>
  C5, amended. When reset-after-select is on and the user commits a row whose item is not
  the selected item already, afterwards the input text is the empty string, the selected
  item is \<^verbatim>\<open>null\<close> (the reset has cleared it; the chosen item went to the caller's
  callback), and the filtered view is the whole item list.
\<close>

theorem commit_with_reset_clears:
  assumes "resetAfterSelect props" and "i < length (filteredItems s)"
    and "selectedItem s \<noteq> Defined (filteredItems s ! i)"
  shows "inputValue (fst (commit lc isOpen props i s)) = []
     \<and> selectedItem (fst (commit lc isOpen props i s)) = Null
     \<and> filteredItems (fst (commit lc isOpen props i s)) = items props"
proof -
  define item where "item = Defined (filteredItems s ! i)"
  obtain s1 e1 where h: "hookChange props item (itemToString item) s = (s1, e1)"
    by (cases "hookChange props item (itemToString item) s")
  have "e1 = onSelectedItemChange props item"
    using hookChange_commit_effects [of props item "itemToString item" s] h assms(3)
    by (auto simp: item_def)
  with assms(1) have "CallReset \<in> set e1" by (simp add: reset_in_handler)
  then have r: "fst (runResets props (s1, e1)) = fst (hookChange props Null [] s1)"
    by (simp add: runResets_reset)
  have c: "fst (commit lc isOpen props i s)
            = render isOpen (filterEffect lc props (fst (runResets props (s1, e1))))"
    using assms(2) h by (simp add: commit_def item_def split: prod.split)
  have st: "inputValue (fst (runResets props (s1, e1))) = []
            \<and> selectedItem (fst (runResets props (s1, e1))) = Null"
    unfolding r by (rule hookChange_reset_state)
  then show ?thesis
    unfolding c by (simp add: render_filter_fields filterItems_def)
qed

theorem commit_with_reset_clears_witness:
  "inputValue
      (fst (commit asciiLowerCase False (exampleProps\<lparr>resetAfterSelect := True\<rparr>) 2 openState)) = []
   \<and> selectedItem
      (fst (commit asciiLowerCase False (exampleProps\<lparr>resetAfterSelect := True\<rparr>) 2 openState)) = Null
   \<and> filteredItems
      (fst (commit asciiLowerCase False (exampleProps\<lparr>resetAfterSelect := True\<rparr>) 2 openState))
       = exampleItems"
proof -
  have r: "resetAfterSelect (exampleProps\<lparr>resetAfterSelect := True\<rparr>)" by simp
  have i: "2 < length (filteredItems openState)" by (simp add: openState_def exampleItems_def)
  have n: "selectedItem openState \<noteq> Defined (filteredItems openState ! 2)"
    by (simp add: openState_def)
  from commit_with_reset_clears [OF r i n, of asciiLowerCase False]
  show ?thesis by (simp add: exampleProps_def)
qed

section \<open>The equipment presets\<close>

lemma presetPlayer_six:
  "p \<in> sixPresets \<Longrightarrow> \<exists>e. presetPlayer f (Defined p) = \<lparr>equipment = Some e\<rparr> \<and> 9 \<le> length e"
  by (auto simp: sixPresets_def presetPlayer_def)

lemma presetPlayer_other:
  "pv \<notin> Defined ` sixPresets \<Longrightarrow> presetPlayer f pv = emptyPlayer"
  by (auto simp: sixPresets_def presetPlayer_def)

lemma onSelect_dharoks_example:
  "onSelect exampleEquipment (Defined \<lparr>label = ''Dharok's equipment'', itemValue = DHAROKS\<rparr>)
     = [\<lparr>equipment = Some
          [(Slot_head, Defined \<lparr>eq_id = 4880, eq_name = ''Dharok's helm''\<rparr>),
           (Slot_cape, Defined \<lparr>eq_id = 21295, eq_name = ''Infernal cape''\<rparr>),
           (Slot_neck, Undefined), (Slot_ammo, Undefined), (Slot_weapon, Undefined),
           (Slot_body, Undefined), (Slot_shield, Null), (Slot_legs, Undefined),
           (Slot_hands, Undefined), (Slot_feet, Undefined), (Slot_ring, Undefined)]\<rparr>]"
  by (simp add: onSelect_def optValue_def presetPlayer_def objectKeysLength_def
      findItemById_def exampleEquipment_def)

text \<open>
  C10. If the selected item is \<^verbatim>\<open>null\<close>, \<^verbatim>\<open>undefined\<close>, or its value is none of the
  six presets, \<^verbatim>\<open>store.updatePlayer\<close> is not called; if its value is one of the six
  presets it is called exactly once, with an update whose equipment lists at least one slot.
\<close>

theorem onSelect_updates_only_for_presets:
  "((v = Null \<or> v = Undefined \<or> (\<exists>it. v = Defined it \<and> itemValue it \<notin> sixPresets))
      \<longrightarrow> onSelect availableEquipment v = [])
   \<and> ((\<exists>it. v = Defined it \<and> itemValue it \<in> sixPresets)
      \<longrightarrow> (\<exists>e. onSelect availableEquipment v = [\<lparr>equipment = Some e\<rparr>] \<and> e \<noteq> []))"
proof (intro conjI impI)
  assume a: "v = Null \<or> v = Undefined \<or> (\<exists>it. v = Defined it \<and> itemValue it \<notin> sixPresets)"
  then have "optValue v \<notin> Defined ` sixPresets"
    by (auto simp: optValue_def)
  then have "presetPlayer (findItemById availableEquipment) (optValue v) = emptyPlayer"
    by (rule presetPlayer_other)
  then show "onSelect availableEquipment v = []"
    by (simp add: onSelect_def objectKeysLength_def emptyPlayer_def)
next
  assume "\<exists>it. v = Defined it \<and> itemValue it \<in> sixPresets"
  then obtain it where v: "v = Defined it" and p: "itemValue it \<in> sixPresets" by blast
  from presetPlayer_six [OF p] obtain e
    where e: "presetPlayer (findItemById availableEquipment) (Defined (itemValue it))
                = \<lparr>equipment = Some e\<rparr>" and l: "9 \<le> length e"
    by blast
  from l have "e \<noteq> []" by auto
  moreover from v e have "onSelect availableEquipment v = [\<lparr>equipment = Some e\<rparr>]"
    by (simp add: onSelect_def optValue_def objectKeysLength_def)
  ultimately show "\<exists>e. onSelect availableEquipment v = [\<lparr>equipment = Some e\<rparr>] \<and> e \<noteq> []"
    by blast
qed

theorem onSelect_updates_only_for_presets_witness:
  "onSelect exampleEquipment (Null :: EquipmentPreset ComboboxItem nullable) = []
   \<and> onSelect exampleEquipment (Defined \<lparr>label = ''Other'', itemValue = OTHER 7\<rparr>) = []
   \<and> (\<exists>e. onSelect exampleEquipment
              (Defined \<lparr>label = ''Dharok's equipment'', itemValue = DHAROKS\<rparr>)
            = [\<lparr>equipment = Some e\<rparr>] \<and> e \<noteq> [])"
proof -
  have "onSelect exampleEquipment (Null :: EquipmentPreset ComboboxItem nullable) = []"
    using onSelect_updates_only_for_presets [of Null exampleEquipment] by simp
  moreover have
    "onSelect exampleEquipment (Defined \<lparr>label = ''Other'', itemValue = OTHER 7\<rparr>) = []"
    using onSelect_updates_only_for_presets
      [of "Defined \<lparr>label = ''Other'', itemValue = OTHER 7\<rparr>" exampleEquipment]
    by (simp add: sixPresets_def)
  moreover have "\<exists>e. onSelect exampleEquipment
        (Defined \<lparr>label = ''Dharok's equipment'', itemValue = DHAROKS\<rparr>)
            = [\<lparr>equipment = Some e\<rparr>] \<and> e \<noteq> []"
    using onSelect_updates_only_for_presets
      [of "Defined \<lparr>label = ''Dharok's equipment'', itemValue = DHAROKS\<rparr>" exampleEquipment]
    by (simp add: sixPresets_def)
  ultimately show ?thesis by blast
qed

end
